theory Spec2Isabelle
  imports Main
begin

section \<open>The reservation store (server/state.ts)\<close>

text \<open>
  The status and command enumerations of \<^verbatim>\<open>HoldState\<close>. The source writes them as
  string literal types: \<^verbatim>\<open>'active' | 'dropped' | 'buying' | 'bought' | 'error' | 'pending'\<close>
  and \<^verbatim>\<open>'buy' | 'drop' | null\<close>. The terminal statuses of the specification are
  Committed (\<open>Bought\<close>), Released (\<open>Dropped\<close>) and Failed (\<open>Error\<close>).
\<close>

datatype Status = Active | Dropped | Buying | Bought | Error | Pending

datatype Command = Buy | Drop

record HoldState =
  holdId :: string
  eventUrl :: string
  eventName :: string
  ticketType :: string
  quantity :: int
  status :: Status
  cycleCount :: int
  startTime :: int
  lastCycleTime :: int
  totalFeeCents :: int
  command :: "Command option"
  fanPhone :: "string option"
  fanName :: "string option"
  fanEmail :: "string option"
  solanaOptionId :: "string option"

definition terminal :: "Status \<Rightarrow> bool" where
  "terminal s = (s = Bought \<or> s = Dropped \<or> s = Error)"

text \<open>
  \<^verbatim>\<open>const holds = new Map<string, HoldState>()\<close>. A JavaScript Map iterates in insertion
  order and \<^verbatim>\<open>set\<close> on a key that is present keeps the key's position, so the store is
  an association list: \<open>Map_set\<close> is \<^verbatim>\<open>Map.prototype.set\<close>, \<open>map_of\<close> is
  \<^verbatim>\<open>Map.prototype.get\<close>.
\<close>

type_synonym 'v jsmap = "(string \<times> 'v) list"

fun Map_set :: "string \<Rightarrow> 'v \<Rightarrow> 'v jsmap \<Rightarrow> 'v jsmap" where
  "Map_set k v [] = [(k, v)]"
| "Map_set k v ((k', v') # rest) =
     (if k' = k then (k, v) # rest else (k', v') # Map_set k v rest)"

definition Map_has :: "'v jsmap \<Rightarrow> string \<Rightarrow> bool" where
  "Map_has m k = (map_of m k \<noteq> None)"

type_synonym holds = "HoldState jsmap"

text \<open>
  \<^verbatim>\<open>Partial<HoldState>\<close>: the own properties of the object literal passed as
  \<^verbatim>\<open>updates\<close>, in their order. \<^verbatim>\<open>Object.assign(state, updates)\<close> copies each of them,
  also one whose value is \<^verbatim>\<open>undefined\<close> (\<open>None\<close> for an optional field).
\<close>

datatype Update =
    U_holdId string
  | U_eventUrl string
  | U_eventName string
  | U_ticketType string
  | U_quantity int
  | U_status Status
  | U_cycleCount int
  | U_startTime int
  | U_lastCycleTime int
  | U_totalFeeCents int
  | U_command "Command option"
  | U_fanPhone "string option"
  | U_fanName "string option"
  | U_fanEmail "string option"
  | U_solanaOptionId "string option"

fun assign1 :: "HoldState \<Rightarrow> Update \<Rightarrow> HoldState" where
  "assign1 st (U_holdId v) = st\<lparr>holdId := v\<rparr>"
| "assign1 st (U_eventUrl v) = st\<lparr>eventUrl := v\<rparr>"
| "assign1 st (U_eventName v) = st\<lparr>eventName := v\<rparr>"
| "assign1 st (U_ticketType v) = st\<lparr>ticketType := v\<rparr>"
| "assign1 st (U_quantity v) = st\<lparr>quantity := v\<rparr>"
| "assign1 st (U_status v) = st\<lparr>status := v\<rparr>"
| "assign1 st (U_cycleCount v) = st\<lparr>cycleCount := v\<rparr>"
| "assign1 st (U_startTime v) = st\<lparr>startTime := v\<rparr>"
| "assign1 st (U_lastCycleTime v) = st\<lparr>lastCycleTime := v\<rparr>"
| "assign1 st (U_totalFeeCents v) = st\<lparr>totalFeeCents := v\<rparr>"
| "assign1 st (U_command v) = st\<lparr>command := v\<rparr>"
| "assign1 st (U_fanPhone v) = st\<lparr>fanPhone := v\<rparr>"
| "assign1 st (U_fanName v) = st\<lparr>fanName := v\<rparr>"
| "assign1 st (U_fanEmail v) = st\<lparr>fanEmail := v\<rparr>"
| "assign1 st (U_solanaOptionId v) = st\<lparr>solanaOptionId := v\<rparr>"

definition Object_assign :: "HoldState \<Rightarrow> Update list \<Rightarrow> HoldState" where
  "Object_assign st updates = foldl assign1 st updates"



text \<open>
  \<^verbatim>\<open>updateHoldState(holdId, updates)\<close>: null when the id is unknown, otherwise the record
  is assigned in place, whatever its status, and returned.
\<close>

definition updateHoldState :: "string \<Rightarrow> Update list \<Rightarrow> holds \<Rightarrow> HoldState option \<times> holds" where
  "updateHoldState hid updates hs =
     (case map_of hs hid of
        None \<Rightarrow> (None, hs)
      | Some state \<Rightarrow>
          (let state' = Object_assign state updates
           in (Some state', Map_set hid state' hs)))"

definition getHoldState :: "string \<Rightarrow> holds \<Rightarrow> HoldState option" where
  "getHoldState hid hs = map_of hs hid"

definition getAllHolds :: "holds \<Rightarrow> HoldState list" where
  "getAllHolds hs = map snd hs"

definition getActiveHolds :: "holds \<Rightarrow> HoldState list" where
  "getActiveHolds hs = filter (\<lambda>h. status h = Active \<or> status h = Buying) (getAllHolds hs)"

text \<open>
  \<^verbatim>\<open>getAllHolds().find(h => h.fanPhone === phoneNumber) || null\<close>: the first record in
  creation order whose phone is the given string. The status is not read.
\<close>

definition getHoldByPhone :: "string \<Rightarrow> holds \<Rightarrow> HoldState option" where
  "getHoldByPhone phoneNumber hs = find (\<lambda>h. fanPhone h = Some phoneNumber) (getAllHolds hs)"

definition sendHoldCommand :: "string \<Rightarrow> Command \<Rightarrow> holds \<Rightarrow> bool \<times> holds" where
  "sendHoldCommand hid c hs =
     (case map_of hs hid of
        None \<Rightarrow> (False, hs)
      | Some state \<Rightarrow> (True, Map_set hid (state\<lparr>command := Some c\<rparr>) hs))"

section \<open>The control surface (server/routes.ts)\<close>

datatype 'a Response = NotFound404 | Ok200 'a

text \<open>
  The snapshots of the two read endpoints. The object literal spreads the record and then
  overrides \<^verbatim>\<open>fanPhone\<close> and \<^verbatim>\<open>fanEmail\<close> with \<^verbatim>\<open>undefined\<close>, which the JSON
  serialisation leaves out. \<open>toFixed2\<close> stands for the JavaScript number formatting
  \<^verbatim>\<open>(cents / 100).toFixed(2)\<close>, a function of the cents alone.
\<close>

record HoldsItem = HoldState +
  elapsedMs :: int
  feeDollars :: string

record StatusItem = HoldsItem +
  elapsedMinutes :: int

definition holds_item :: "(int \<Rightarrow> string) \<Rightarrow> int \<Rightarrow> HoldState \<Rightarrow> HoldsItem" where
  "holds_item toFixed2 now h =
     \<lparr> holdId = holdId h, eventUrl = eventUrl h, eventName = eventName h,
       ticketType = ticketType h, quantity = quantity h, status = status h,
       cycleCount = cycleCount h, startTime = startTime h, lastCycleTime = lastCycleTime h,
       totalFeeCents = totalFeeCents h, command = command h, fanPhone = None,
       fanName = fanName h, fanEmail = None, solanaOptionId = solanaOptionId h,
       elapsedMs = now - startTime h, feeDollars = toFixed2 (totalFeeCents h) \<rparr>"

definition status_item :: "(int \<Rightarrow> string) \<Rightarrow> int \<Rightarrow> HoldState \<Rightarrow> StatusItem" where
  "status_item toFixed2 now h =
     \<lparr> holdId = holdId h, eventUrl = eventUrl h, eventName = eventName h,
       ticketType = ticketType h, quantity = quantity h, status = status h,
       cycleCount = cycleCount h, startTime = startTime h, lastCycleTime = lastCycleTime h,
       totalFeeCents = totalFeeCents h, command = command h, fanPhone = None,
       fanName = fanName h, fanEmail = None, solanaOptionId = solanaOptionId h,
       elapsedMs = now - startTime h, feeDollars = toFixed2 (totalFeeCents h),
       elapsedMinutes = (now - startTime h) div 60000 \<rparr>"

text \<open>\<^verbatim>\<open>GET /api/hold/:id/status\<close>; \<open>now\<close> is the reading of \<^verbatim>\<open>Date.now()\<close>.\<close>

definition get_hold_status :: "(int \<Rightarrow> string) \<Rightarrow> int \<Rightarrow> string \<Rightarrow> holds \<Rightarrow> StatusItem Response" where
  "get_hold_status toFixed2 now hid hs =
     (case getHoldState hid hs of
        None \<Rightarrow> NotFound404
      | Some state \<Rightarrow> Ok200 (status_item toFixed2 now state))"

text \<open>
  \<^verbatim>\<open>GET /api/holds\<close>: the listing and its count. \<^verbatim>\<open>Date.now()\<close> is read once for each
  listed record; \<open>clock i\<close> is the reading for the record at position \<open>i\<close>.
\<close>

definition get_holds :: "(int \<Rightarrow> string) \<Rightarrow> (nat \<Rightarrow> int) \<Rightarrow> holds \<Rightarrow> HoldsItem list \<times> nat" where
  "get_holds toFixed2 clock hs =
     (let items = map (\<lambda>(i, h). holds_item toFixed2 (clock i) h) (enumerate 0 (getActiveHolds hs))
      in (items, length items))"

text \<open>
  \<^verbatim>\<open>POST /api/hold/:id/buy\<close> with the \<^verbatim>\<open>name\<close> and \<^verbatim>\<open>email\<close> of the request body, and
  \<^verbatim>\<open>POST /api/hold/:id/drop\<close>. Neither reads the status of the record it writes.
\<close>

definition post_hold_buy :: "string \<Rightarrow> string option \<Rightarrow> string option \<Rightarrow> holds \<Rightarrow> string Response \<times> holds" where
  "post_hold_buy hid name email hs =
     (case getHoldState hid hs of
        None \<Rightarrow> (NotFound404, hs)
      | Some state \<Rightarrow>
          (Ok200 hid,
           snd (updateHoldState hid
                  [U_fanName name, U_fanEmail email, U_command (Some Buy), U_status Buying] hs)))"

definition post_hold_drop :: "string \<Rightarrow> holds \<Rightarrow> unit Response \<times> holds" where
  "post_hold_drop hid hs =
     (let (dropped, hs1) = sendHoldCommand hid Drop hs
      in if \<not> dropped then (NotFound404, hs1)
         else (Ok200 (), snd (updateHoldState hid [U_status Dropped] hs1)))"

section \<open>Command ingestion by requester (bot/sms-handler.ts)\<close>

text \<open>
  The \<^verbatim>\<open>buy\<close> and \<^verbatim>\<open>drop\<close> cases of \<^verbatim>\<open>handleInboundSMS\<close>: the reservation is looked up
  by the sender's phone and the command is written with \<^verbatim>\<open>sendHoldCommand(hold.holdId, ...)\<close>.
  Only the effect on the store is modelled, not the reply text.
\<close>

definition handleInboundSMS_command :: "string \<Rightarrow> Command \<Rightarrow> holds \<Rightarrow> holds" where
  "handleInboundSMS_command phoneNumber c hs =
     (case getHoldByPhone phoneNumber hs of
        None \<Rightarrow> hs
      | Some hold \<Rightarrow> snd (sendHoldCommand (holdId hold) c hs))"

section \<open>The cycling engine (bot/holder.ts)\<close>

definition MAX_RETRIES :: int where
  "MAX_RETRIES = 3"

text \<open>
  What \<^verbatim>\<open>executeOneCycle\<close> can throw, in the taxonomy of the specification. The source has
  no error classes: its \<^verbatim>\<open>catch (err: any)\<close> binds whatever was thrown and reads only
  \<^verbatim>\<open>err.message\<close>, for the log.
\<close>

datatype Thrown = TransientAutomationError | FatalAutomationError

text \<open>
  \<^verbatim>\<open>runHoldCycle\<close> is an async function: it runs without interruption between two
  \<^verbatim>\<open>await\<close>s, and other tasks (the control surface, command ingestion) run while it
  waits. \<open>Pc\<close> names the places where it waits:
  \<^item> \<open>Starting\<close>: the browser context, navigation and login before the loop;
  \<^item> \<open>Boundary\<close>: the top of \<^verbatim>\<open>while (true)\<close>, about to read the pending command;
  \<^item> \<open>Renewing\<close>: \<^verbatim>\<open>await executeOneCycle(...)\<close>;
  \<^item> \<open>Pausing\<close>: the 3 second timer before a retry;
  \<^item> \<open>Recovering\<close>: \<^verbatim>\<open>await recoverPage(...)\<close>;
  \<^item> \<open>Ended\<close>: after \<^verbatim>\<open>break\<close>, or after the setup threw.
  \<open>Env\<close> carries what the outside world answers when the task resumes.
\<close>

datatype Pc = Starting | Boundary | Renewing | Pausing | Recovering | Ended

record Env =
  setup_ok :: bool
  clock1 :: int
  clock2 :: int
  cycle_result :: "Thrown option"
  recovery_ok :: bool

record Cycler =
  l_cycleCount :: int
  consecutiveErrors :: int
  pc :: Pc

definition getHoldCommand :: "string \<Rightarrow> holds \<Rightarrow> Command option" where
  "getHoldCommand hid hs = (case getHoldState hid hs of None \<Rightarrow> None | Some state \<Rightarrow> command state)"

text \<open>
  One resumption of the task for reservation \<open>hid\<close>, up to its next wait. \<open>rate\<close> is
  \<^verbatim>\<open>HOLD_RATE_CENTS\<close>, read from the environment (default 10). When the setup throws, the
  promise is rejected and the \<^verbatim>\<open>.catch\<close> of both callers in routes.ts writes the status
  \<^verbatim>\<open>'error'\<close>.
\<close>

definition runHoldCycle_step :: "int \<Rightarrow> string \<Rightarrow> Env \<Rightarrow> Cycler \<times> holds \<Rightarrow> Cycler \<times> holds" where
  "runHoldCycle_step rate hid env = (\<lambda>(c, hs).
     case pc c of
       Starting \<Rightarrow>
         if setup_ok env
         then (c\<lparr>pc := Boundary\<rparr>,
               snd (updateHoldState hid
                      [U_status Active, U_cycleCount 0, U_startTime (clock1 env),
                       U_totalFeeCents 0, U_lastCycleTime (clock2 env), U_command None] hs))
         else (c\<lparr>pc := Ended\<rparr>, snd (updateHoldState hid [U_status Error] hs))
     | Boundary \<Rightarrow>
         (case getHoldCommand hid hs of
            Some Drop \<Rightarrow>
              (c\<lparr>pc := Ended\<rparr>,
               snd (updateHoldState hid [U_status Dropped, U_command (Some Drop)] hs))
          | Some Buy \<Rightarrow>
              (c\<lparr>pc := Ended\<rparr>,
               snd (updateHoldState hid [U_status Buying, U_command (Some Buy)] hs))
          | None \<Rightarrow> (c\<lparr>pc := Renewing\<rparr>, hs))
     | Renewing \<Rightarrow>
         (case cycle_result env of
            None \<Rightarrow>
              (let cycleCount' = l_cycleCount c + 1;
                   totalFeeCents' = cycleCount' * rate
               in (c\<lparr>l_cycleCount := cycleCount', consecutiveErrors := 0, pc := Boundary\<rparr>,
                   snd (updateHoldState hid
                          [U_cycleCount cycleCount', U_totalFeeCents totalFeeCents',
                           U_lastCycleTime (clock1 env), U_status Active] hs)))
          | Some err \<Rightarrow>
              (let errors' = consecutiveErrors c + 1
               in if errors' \<ge> MAX_RETRIES
                  then (c\<lparr>consecutiveErrors := errors', pc := Recovering\<rparr>, hs)
                  else (c\<lparr>consecutiveErrors := errors', pc := Pausing\<rparr>, hs)))
     | Pausing \<Rightarrow> (c\<lparr>pc := Boundary\<rparr>, hs)
     | Recovering \<Rightarrow>
         if recovery_ok env
         then (c\<lparr>consecutiveErrors := 0, pc := Boundary\<rparr>, hs)
         else (c\<lparr>pc := Ended\<rparr>, snd (updateHoldState hid [U_status Error] hs))
     | Ended \<Rightarrow> (c, hs))"


text \<open>
  Everything that writes the store while the task of reservation \<open>hid\<close> lives: the task
  itself, a command of a requester by SMS, and the two write endpoints.
\<close>

datatype Event =
    Cycle Env
  | Sms string Command
  | Api_buy string "string option" "string option"
  | Api_drop string

fun system_step :: "int \<Rightarrow> string \<Rightarrow> Cycler \<times> holds \<Rightarrow> Event \<Rightarrow> Cycler \<times> holds" where
  "system_step rate hid s (Cycle env) = runHoldCycle_step rate hid env s"
| "system_step rate hid s (Sms phoneNumber c) = (fst s, handleInboundSMS_command phoneNumber c (snd s))"
| "system_step rate hid s (Api_buy i name email) = (fst s, snd (post_hold_buy i name email (snd s)))"
| "system_step rate hid s (Api_drop i) = (fst s, snd (post_hold_drop i (snd s)))"

definition system_run :: "int \<Rightarrow> string \<Rightarrow> Cycler \<times> holds \<Rightarrow> Event list \<Rightarrow> Cycler \<times> holds" where
  "system_run rate hid s evs = foldl (system_step rate hid) s evs"


text \<open>The fields of the stored record of \<open>hid\<close> that the theorems read.\<close>

definition stored_status :: "string \<Rightarrow> Cycler \<times> holds \<Rightarrow> Status option" where
  "stored_status hid s = map_option status (getHoldState hid (snd s))"






section \<open>The message ingestion tick (bot/sms-loop.ts)\<close>

text \<open>
  The first \<^verbatim>\<open>tick\<close> of the file. (The file holds a later revision of the loop as well: it
  adds one more discard, of texts that start with the bot's reply prefix, and a fixed reply
  for one demo text; its mark, cooldown and send steps are the same.) Strings are byte lists,
  so a character beyond ASCII is its UTF-8 bytes.
\<close>

definition SENT_TEXT_TTL_MS :: int where
  "SENT_TEXT_TTL_MS = 60000"

definition COOLDOWN_MS :: int where
  "COOLDOWN_MS = 10000"

record Message =
  rowid :: int
  msg_text :: string
  sender :: string
  timestamp :: int
  isFromMe :: bool

text \<open>
  \<^verbatim>\<open>phone.replace(/\D/g, '').replace(/^1(\d{10})$/, '$1')\<close>: keep the digits; of eleven
  digits that start with 1, drop the 1.
\<close>

definition is_digit :: "char \<Rightarrow> bool" where
  "is_digit ch = (ch \<in> set ''0123456789'')"

definition normalizePhone :: "string \<Rightarrow> string" where
  "normalizePhone phone =
     (let digits = filter is_digit phone
      in if length digits = 11 \<and> hd digits = CHR ''1'' then tl digits else digits)"

text \<open>
  \<^verbatim>\<open>msg.text.trim() === ''\<close>: the text consists of white space and line terminators only.
  \<open>white_space\<close> lists the UTF-8 encodings of the code points that \<^verbatim>\<open>trim\<close> removes.
\<close>

definition white_space :: "string list" where
  "white_space =
     [[CHR 0x09], [CHR 0x0A], [CHR 0x0B], [CHR 0x0C], [CHR 0x0D], [CHR 0x20],
      [CHR 0xC2, CHR 0xA0], [CHR 0xE1, CHR 0x9A, CHR 0x80],
      [CHR 0xE2, CHR 0x80, CHR 0x80], [CHR 0xE2, CHR 0x80, CHR 0x81],
      [CHR 0xE2, CHR 0x80, CHR 0x82], [CHR 0xE2, CHR 0x80, CHR 0x83],
      [CHR 0xE2, CHR 0x80, CHR 0x84], [CHR 0xE2, CHR 0x80, CHR 0x85],
      [CHR 0xE2, CHR 0x80, CHR 0x86], [CHR 0xE2, CHR 0x80, CHR 0x87],
      [CHR 0xE2, CHR 0x80, CHR 0x88], [CHR 0xE2, CHR 0x80, CHR 0x89],
      [CHR 0xE2, CHR 0x80, CHR 0x8A], [CHR 0xE2, CHR 0x80, CHR 0xA8],
      [CHR 0xE2, CHR 0x80, CHR 0xA9], [CHR 0xE2, CHR 0x80, CHR 0xAF],
      [CHR 0xE2, CHR 0x81, CHR 0x9F], [CHR 0xE3, CHR 0x80, CHR 0x80],
      [CHR 0xEF, CHR 0xBB, CHR 0xBF]]"

fun all_white :: "nat \<Rightarrow> string \<Rightarrow> bool" where
  "all_white 0 s = (s = [])"
| "all_white (Suc n) s =
     (s = [] \<or> list_ex (\<lambda>w. take (length w) s = w \<and> all_white n (drop (length w) s)) white_space)"

definition trim_is_empty :: "string \<Rightarrow> bool" where
  "trim_is_empty s = all_white (length s) s"

text \<open>
  The module state of the loop: the high-water mark, the echo guard (reply text to the time it
  was sent) and the per-phone cooldown (normalised phone to the time of the last processed
  message).
\<close>

record Ingest =
  lastSeenRowId :: int
  sentTexts :: "int jsmap"
  phoneCooldowns :: "int jsmap"

text \<open>
  What the outside world answers for one message that passes the filters: the reply of
  \<^verbatim>\<open>processMessage\<close> (\<open>None\<close> when it throws), whether \<^verbatim>\<open>sendMessage\<close> returns rather
  than throws, and the two readings of \<^verbatim>\<open>Date.now()\<close> after the send.
\<close>

record MsgEnv =
  agent_reply :: "string option"
  send_ok :: bool
  sent_now :: int
  cooldown_now :: int

text \<open>What a message makes the loop do: hand it to the agent, send a reply.\<close>

datatype Action = Routed string string | Replied string string

definition agent_error_reply :: string where
  "agent_error_reply =
     ''QUORUM '' @ [CHR 0xF0, CHR 0x9F, CHR 0x8E, CHR 0xAB] @
     '' Something went wrong on our end '' @ [CHR 0xE2, CHR 0x80, CHR 0x94] @
     '' try again in a moment!''"

text \<open>
  The body of \<^verbatim>\<open>for (const msg of messages)\<close>. \<open>kyd\<close> is \<^verbatim>\<open>KYD_2FA_SENDER\<close>, read from the
  environment; \<open>now\<close> is the reading of \<^verbatim>\<open>Date.now()\<close> at the start of the tick. Every
  \<^verbatim>\<open>continue\<close> is a branch that returns the state reached so far and no action. The event
  list handed to the agent is part of what the agent answers from, so it is not a parameter.
\<close>

definition tick_message :: "string \<Rightarrow> int \<Rightarrow> Ingest \<Rightarrow> Message \<times> MsgEnv \<Rightarrow> Ingest \<times> Action list" where
  "tick_message kyd now s = (\<lambda>(msg, env).
     if rowid msg \<le> lastSeenRowId s then (s, [])
     else
       let s1 = s\<lparr>lastSeenRowId := max (lastSeenRowId s) (rowid msg)\<rparr> in
       if isFromMe msg then (s1, [])
       else if sender msg = kyd then (s1, [])
       else if msg_text msg = [] \<or> trim_is_empty (msg_text msg) then (s1, [])
       else if Map_has (sentTexts s1) (msg_text msg) then (s1, [])
       else
         let normalized = normalizePhone (sender msg);
             lastProcessed = (case map_of (phoneCooldowns s1) normalized of None \<Rightarrow> 0 | Some t \<Rightarrow> t)
         in
         if now - lastProcessed < COOLDOWN_MS then (s1, [])
         else
           let reply = (case agent_reply env of Some r \<Rightarrow> r | None \<Rightarrow> agent_error_reply) in
           if send_ok env
           then (s1\<lparr>sentTexts := Map_set reply (sent_now env) (sentTexts s1),
                    phoneCooldowns := Map_set (normalizePhone (sender msg)) (cooldown_now env)
                                        (phoneCooldowns s1)\<rparr>,
                 [Routed (sender msg) (msg_text msg), Replied (sender msg) reply])
           else (s1, [Routed (sender msg) (msg_text msg)]))"

text \<open>
  The loop over the batch, and the tick: the expired echo entries are pruned, then the messages
  that \<^verbatim>\<open>getRecentMessages\<close> returned are processed in order (\<open>None\<close> when it throws, which
  the outer \<^verbatim>\<open>catch\<close> logs).
\<close>

fun tick_messages :: "string \<Rightarrow> int \<Rightarrow> Ingest \<Rightarrow> (Message \<times> MsgEnv) list \<Rightarrow> Ingest \<times> Action list" where
  "tick_messages kyd now s [] = (s, [])"
| "tick_messages kyd now s (m # ms) =
     (let (s1, acts1) = tick_message kyd now s m;
          (s2, acts2) = tick_messages kyd now s1 ms
      in (s2, acts1 @ acts2))"

definition prune_sentTexts :: "int \<Rightarrow> Ingest \<Rightarrow> Ingest" where
  "prune_sentTexts now s =
     s\<lparr>sentTexts := filter (\<lambda>(txt, sentAt). \<not> (now - sentAt > SENT_TEXT_TTL_MS)) (sentTexts s)\<rparr>"

definition tick :: "string \<Rightarrow> int \<Rightarrow> (Message \<times> MsgEnv) list option \<Rightarrow> Ingest \<Rightarrow> Ingest \<times> Action list" where
  "tick kyd now messages s =
     (case messages of
        None \<Rightarrow> (prune_sentTexts now s, [])
      | Some ms \<Rightarrow> tick_messages kyd now (prune_sentTexts now s) ms)"

text \<open>
  A message that none of the content filters of the loop body rejects: it is inbound, not
  from the 2FA short code, and not blank. \<open>last_processed\<close> is the loop's
  \<^verbatim>\<open>phoneCooldowns.get(normalized) ?? 0\<close>.
\<close>

definition eligible :: "string \<Rightarrow> Message \<Rightarrow> bool" where
  "eligible kyd msg =
     (\<not> isFromMe msg \<and> sender msg \<noteq> kyd \<and> msg_text msg \<noteq> [] \<and> \<not> trim_is_empty (msg_text msg))"

definition last_processed :: "Ingest \<Rightarrow> string \<Rightarrow> int" where
  "last_processed s phone =
     (case map_of (phoneCooldowns s) (normalizePhone phone) of None \<Rightarrow> 0 | Some t \<Rightarrow> t)"

definition reply_of :: "MsgEnv \<Rightarrow> string" where
  "reply_of env = (case agent_reply env of Some r \<Rightarrow> r | None \<Rightarrow> agent_error_reply)"

section \<open>Example values\<close>

definition hold1 :: HoldState where
  "hold1 = \<lparr> holdId = ''hold-1'', eventUrl = ''https://kydlabs.com/e/florist'',
              eventName = ''Florist'', ticketType = ''GA'', quantity = 2, status = Active,
              cycleCount = 3, startTime = 1000, lastCycleTime = 900000, totalFeeCents = 30,
              command = None, fanPhone = Some ''+15551234567'', fanName = None,
              fanEmail = None, solanaOptionId = None \<rparr>"

definition hold2 :: HoldState where
  "hold2 = hold1\<lparr>holdId := ''hold-2'', eventName := ''Emo Night'', status := Pending,
                  cycleCount := 0, totalFeeCents := 0, fanPhone := Some ''+15557654321''\<rparr>"

definition store1 :: holds where
  "store1 = [(''hold-1'', hold1), (''hold-2'', hold2)]"

definition store_failed :: holds where
  "store_failed = [(''hold-1'', hold1\<lparr>status := Error\<rparr>)]"

definition store1_other_contact :: holds where
  "store1_other_contact =
     [(''hold-1'', hold1\<lparr>fanPhone := Some ''+15550000000'', fanEmail := Some ''a@b.c''\<rparr>),
      (''hold-2'', hold2\<lparr>fanPhone := None\<rparr>)]"

definition cents_only :: "int \<Rightarrow> string" where
  "cents_only c = (if c = 30 then ''0.30'' else ''0.00'')"

definition env_fatal :: Env where
  "env_fatal = \<lparr> setup_ok = True, clock1 = 0, clock2 = 0,
                 cycle_result = Some FatalAutomationError, recovery_ok = True \<rparr>"

definition env_transient :: Env where
  "env_transient = env_fatal\<lparr>cycle_result := Some TransientAutomationError\<rparr>"

definition env_ok :: Env where
  "env_ok = \<lparr> setup_ok = True, clock1 = 5000, clock2 = 5001,
              cycle_result = None, recovery_ok = True \<rparr>"

definition env_recovery_fails :: Env where
  "env_recovery_fails = env_ok\<lparr>recovery_ok := False\<rparr>"

definition cycler_renewing :: Cycler where
  "cycler_renewing = \<lparr> l_cycleCount = 3, consecutiveErrors = 0, pc = Renewing \<rparr>"





definition ingest41 :: Ingest where
  "ingest41 = \<lparr> lastSeenRowId = 41, sentTexts = [], phoneCooldowns = [] \<rparr>"

definition msg42 :: Message where
  "msg42 = \<lparr> rowid = 42, msg_text = ''hold 2 florist'', sender = ''+15551234567'',
              timestamp = 1700000000, isFromMe = False \<rparr>"

definition msg43 :: Message where
  "msg43 = msg42\<lparr>rowid := 43, msg_text := ''buy'', timestamp := 1700000005\<rparr>"

definition msg44 :: Message where
  "msg44 = msg42\<lparr>rowid := 44, msg_text := ''status'', timestamp := 1700000011\<rparr>"

definition env_reply :: MsgEnv where
  "env_reply = \<lparr> agent_reply = Some ''QUORUM: ok'', send_ok = True,
                 sent_now = 1700000000300, cooldown_now = 1700000000300 \<rparr>"

definition env_slow_reply :: MsgEnv where
  "env_slow_reply = env_reply\<lparr>sent_now := 1700000001500, cooldown_now := 1700000001500\<rparr>"

section \<open>Facts about the store\<close>

lemma map_of_Map_set: "map_of (Map_set k v m) = (map_of m)(k \<mapsto> v)"
  by (induction m) (auto simp: fun_eq_iff)

lemma getHoldState_sendHoldCommand:
  "getHoldState hid' (snd (sendHoldCommand hid c hs)) =
     (if hid' = hid then map_option (\<lambda>st. st\<lparr>command := Some c\<rparr>) (getHoldState hid hs)
      else getHoldState hid' hs)"
  by (auto simp: getHoldState_def sendHoldCommand_def map_of_Map_set split: option.splits)

lemma getHoldState_updateHoldState:
  "getHoldState hid' (snd (updateHoldState hid ups hs)) =
     (if hid' = hid then map_option (\<lambda>st. Object_assign st ups) (getHoldState hid hs)
      else getHoldState hid' hs)"
  by (auto simp: getHoldState_def updateHoldState_def map_of_Map_set Let_def split: option.splits)

lemma Object_assign_simps [simp]:
  "Object_assign st [] = st"
  "Object_assign st (u # us) = Object_assign (assign1 st u) us"
  by (simp_all add: Object_assign_def)

lemma getHoldState_post_hold_buy:
  "getHoldState hid' (snd (post_hold_buy hid name email hs)) =
     (if hid' = hid
      then map_option (\<lambda>st. st\<lparr>fanName := name, fanEmail := email, command := Some Buy, status := Buying\<rparr>)
             (getHoldState hid hs)
      else getHoldState hid' hs)"
  by (cases "getHoldState hid hs")
     (simp_all add: post_hold_buy_def getHoldState_updateHoldState)

lemma getHoldState_post_hold_drop:
  "getHoldState hid' (snd (post_hold_drop hid hs)) =
     (if hid' = hid
      then map_option (\<lambda>st. st\<lparr>command := Some Drop, status := Dropped\<rparr>) (getHoldState hid hs)
      else getHoldState hid' hs)"
proof (cases "getHoldState hid hs")
  case None
  then show ?thesis
    by (simp add: post_hold_drop_def sendHoldCommand_def getHoldState_def)
next
  case (Some st)
  then have "post_hold_drop hid hs =
      (Ok200 (), snd (updateHoldState hid [U_status Dropped] (snd (sendHoldCommand hid Drop hs))))"
    by (simp add: post_hold_drop_def sendHoldCommand_def getHoldState_def)
  then show ?thesis
    using Some by (simp add: getHoldState_updateHoldState getHoldState_sendHoldCommand)
qed

lemma getHoldState_handleInboundSMS_command:
  "map_option (\<lambda>h. h\<lparr>command := None\<rparr>) (getHoldState i (handleInboundSMS_command phone c hs))
     = map_option (\<lambda>h. h\<lparr>command := None\<rparr>) (getHoldState i hs)"
  by (cases "getHoldByPhone phone hs"; cases "getHoldState i hs")
     (auto simp: handleInboundSMS_command_def getHoldState_sendHoldCommand)

section \<open>Command submission: last write wins\<close>

text \<open>
  C9. When two commands are submitted to an existing reservation one after the other, with
  nothing consuming the field in between, both submissions report success and the
  pending-command field afterwards holds the second command (one field, so at most one
  command is outstanding; the later write overwrites the earlier one). No other field of
  the record and no other record changes.
\<close>

theorem sendHoldCommand_last_write_wins:
  assumes "getHoldState hid hs = Some st"
  shows "fst (sendHoldCommand hid c1 hs) = True
       \<and> fst (sendHoldCommand hid c2 (snd (sendHoldCommand hid c1 hs))) = True
       \<and> getHoldState hid (snd (sendHoldCommand hid c2 (snd (sendHoldCommand hid c1 hs))))
           = Some (st\<lparr>command := Some c2\<rparr>)
       \<and> (\<forall>other. other \<noteq> hid \<longrightarrow>
            getHoldState other (snd (sendHoldCommand hid c2 (snd (sendHoldCommand hid c1 hs))))
              = getHoldState other hs)"
proof -
  have first: "fst (sendHoldCommand hid c1 hs) = True"
    using assms by (simp add: sendHoldCommand_def getHoldState_def)
  have mid: "getHoldState hid (snd (sendHoldCommand hid c1 hs)) = Some (st\<lparr>command := Some c1\<rparr>)"
    using assms by (simp add: getHoldState_sendHoldCommand)
  then have second: "fst (sendHoldCommand hid c2 (snd (sendHoldCommand hid c1 hs))) = True"
    by (simp add: sendHoldCommand_def getHoldState_def)
  have last: "getHoldState hid (snd (sendHoldCommand hid c2 (snd (sendHoldCommand hid c1 hs))))
                = Some (st\<lparr>command := Some c2\<rparr>)"
    using getHoldState_sendHoldCommand [of hid hid c2 "snd (sendHoldCommand hid c1 hs)"] mid
    by simp
  have frame: "\<forall>other. other \<noteq> hid \<longrightarrow>
      getHoldState other (snd (sendHoldCommand hid c2 (snd (sendHoldCommand hid c1 hs))))
        = getHoldState other hs"
    by (simp add: getHoldState_sendHoldCommand)
  from first second last frame show ?thesis by blast
qed


text \<open>The store of two reservations, a buy and then a drop submitted to the first.\<close>

theorem sendHoldCommand_last_write_wins_witness:
  "getHoldState ''hold-1'' store1 = Some hold1
   \<and> fst (sendHoldCommand ''hold-1'' Buy store1) = True
   \<and> getHoldState ''hold-1''
        (snd (sendHoldCommand ''hold-1'' Drop (snd (sendHoldCommand ''hold-1'' Buy store1))))
       = Some (hold1\<lparr>command := Some Drop\<rparr>)"
  using sendHoldCommand_last_write_wins [of "''hold-1''" store1 hold1 Buy Drop]
  by (simp add: store1_def getHoldState_def)

section \<open>Lookup by requester\<close>

lemma find_map_status:
  "find (\<lambda>h. fanPhone h = Some p) (map (\<lambda>h. h\<lparr>status := f h\<rparr>) xs)
     = map_option (\<lambda>h. h\<lparr>status := f h\<rparr>) (find (\<lambda>h. fanPhone h = Some p) xs)"
  by (induction xs) auto

text \<open>
  C7 as stated fails: a store whose only reservation of the requester is already Released
  (\<open>Dropped\<close>) returns that terminal reservation.
\<close>

theorem getHoldByPhone_returns_terminal:
  "getHoldByPhone ''+15551234567'' [(''hold-1'', hold1\<lparr>status := Dropped\<rparr>)]
     = Some (hold1\<lparr>status := Dropped\<rparr>)
   \<and> terminal (status (hold1\<lparr>status := Dropped\<rparr>))"
  by (simp add: getHoldByPhone_def getAllHolds_def hold1_def terminal_def)

text \<open>
  C7, amended. For every store and requester, \<open>getHoldByPhone\<close> returns none exactly when no
  reservation carries that phone, and otherwise the first reservation in creation order that
  carries it; the status plays no part: rewriting the statuses of the store in any way
  returns the same reservation, with its rewritten status.
\<close>

theorem getHoldByPhone_first_of_requester:
  "(case getHoldByPhone phone hs of
      None \<Rightarrow> list_all (\<lambda>h. fanPhone h \<noteq> Some phone) (getAllHolds hs)
    | Some h \<Rightarrow> (\<exists>i<length hs. snd (hs ! i) = h \<and> fanPhone h = Some phone
                   \<and> (\<forall>j<i. fanPhone (snd (hs ! j)) \<noteq> Some phone)))
   \<and> getHoldByPhone phone (map (\<lambda>(k, h). (k, h\<lparr>status := f h\<rparr>)) hs)
       = map_option (\<lambda>h. h\<lparr>status := f h\<rparr>) (getHoldByPhone phone hs)"
proof -
  have "map snd (map (\<lambda>(k, h). (k, h\<lparr>status := f h\<rparr>)) hs) = map (\<lambda>h. h\<lparr>status := f h\<rparr>) (map snd hs)"
    by (induction hs) auto
  then have ignores: "getHoldByPhone phone (map (\<lambda>(k, h). (k, h\<lparr>status := f h\<rparr>)) hs)
       = map_option (\<lambda>h. h\<lparr>status := f h\<rparr>) (getHoldByPhone phone hs)"
    unfolding getHoldByPhone_def getAllHolds_def by (simp only: find_map_status)
  have first: "(case getHoldByPhone phone hs of
      None \<Rightarrow> list_all (\<lambda>h. fanPhone h \<noteq> Some phone) (getAllHolds hs)
    | Some h \<Rightarrow> (\<exists>i<length hs. snd (hs ! i) = h \<and> fanPhone h = Some phone
                   \<and> (\<forall>j<i. fanPhone (snd (hs ! j)) \<noteq> Some phone)))"
    by (auto simp: getHoldByPhone_def getAllHolds_def find_Some_iff find_None_iff list_all_iff
        split: option.splits)
  from first ignores show ?thesis by blast
qed

text \<open>
  The second requester of the two-reservation store is found behind the first, and is found
  again, Released, after every status is rewritten to \<open>Dropped\<close>.
\<close>

theorem getHoldByPhone_first_of_requester_witness:
  "getHoldByPhone ''+15557654321'' store1 = Some hold2
   \<and> getHoldByPhone ''+15557654321'' (map (\<lambda>(k, h). (k, h\<lparr>status := Dropped\<rparr>)) store1)
       = Some (hold2\<lparr>status := Dropped\<rparr>)"
  using getHoldByPhone_first_of_requester [of "''+15557654321''" store1 "\<lambda>h. Dropped"]
  by (simp add: getHoldByPhone_def getAllHolds_def store1_def hold1_def hold2_def)

section \<open>Writes to a terminal record\<close>

text \<open>
  C8 as stated fails: the buy endpoint rewrites a Failed (\<open>Error\<close>) reservation: it
  stores a name and an email, a pending buy command, and the status \<open>Buying\<close>, which is
  not terminal.
\<close>

theorem post_hold_buy_rewrites_terminal:
  "getHoldState ''hold-1'' store_failed = Some (hold1\<lparr>status := Error\<rparr>)
   \<and> terminal (status (hold1\<lparr>status := Error\<rparr>))
   \<and> getHoldState ''hold-1''
        (snd (post_hold_buy ''hold-1'' (Some ''Ann'') (Some ''ann@example.org'') store_failed))
       = Some (hold1\<lparr>status := Buying, command := Some Buy, fanName := Some ''Ann'',
                     fanEmail := Some ''ann@example.org''\<rparr>)
   \<and> \<not> terminal Buying"
  by (simp add: getHoldState_def post_hold_buy_def updateHoldState_def
      terminal_def hold1_def store_failed_def Let_def)

text \<open>
  C8, amended. No operation of the store or of the control surface reads the status before it
  writes, so a record is written whatever its status, terminal or not:
  \<open>updateHoldState\<close> assigns the given fields; \<open>sendHoldCommand\<close> writes the pending command
  and nothing else; the buy endpoint writes the name, the email, the command \<open>Buy\<close> and the
  status \<open>Buying\<close>; the drop endpoint writes the command \<open>Drop\<close> and the status
  \<open>Dropped\<close>; a buy or drop command ingested by SMS changes no field but the pending command
  of any record. None of them writes a counter or a timestamp, and no other record changes.
\<close>

theorem writes_do_not_read_status:
  assumes "getHoldState hid hs = Some st"
  shows "getHoldState hid (snd (updateHoldState hid ups hs)) = Some (Object_assign st ups)
       \<and> getHoldState hid (snd (sendHoldCommand hid c hs)) = Some (st\<lparr>command := Some c\<rparr>)
       \<and> getHoldState hid (snd (post_hold_buy hid name email hs))
           = Some (st\<lparr>fanName := name, fanEmail := email, command := Some Buy, status := Buying\<rparr>)
       \<and> getHoldState hid (snd (post_hold_drop hid hs))
           = Some (st\<lparr>command := Some Drop, status := Dropped\<rparr>)
       \<and> (\<forall>i. map_option (\<lambda>h. h\<lparr>command := None\<rparr>)
                 (getHoldState i (handleInboundSMS_command phone c hs))
               = map_option (\<lambda>h. h\<lparr>command := None\<rparr>) (getHoldState i hs))
       \<and> (\<forall>other. other \<noteq> hid \<longrightarrow>
             getHoldState other (snd (updateHoldState hid ups hs)) = getHoldState other hs
           \<and> getHoldState other (snd (sendHoldCommand hid c hs)) = getHoldState other hs
           \<and> getHoldState other (snd (post_hold_buy hid name email hs)) = getHoldState other hs
           \<and> getHoldState other (snd (post_hold_drop hid hs)) = getHoldState other hs)"
  using assms
  by (simp add: getHoldState_updateHoldState getHoldState_sendHoldCommand
      getHoldState_post_hold_buy getHoldState_post_hold_drop getHoldState_handleInboundSMS_command)

text \<open>A Failed reservation: a submitted drop and the drop endpoint both write it.\<close>

theorem writes_do_not_read_status_witness:
  "getHoldState ''hold-1'' store_failed = Some (hold1\<lparr>status := Error\<rparr>)
   \<and> getHoldState ''hold-1'' (snd (sendHoldCommand ''hold-1'' Drop store_failed))
       = Some (hold1\<lparr>status := Error, command := Some Drop\<rparr>)
   \<and> getHoldState ''hold-1'' (snd (post_hold_drop ''hold-1'' store_failed))
       = Some (hold1\<lparr>command := Some Drop, status := Dropped\<rparr>)"
  using writes_do_not_read_status [of "''hold-1''" store_failed "hold1\<lparr>status := Error\<rparr>"
               "[]" Drop "Some ''Ann''" None "''+15551234567''"]
  by (simp add: getHoldState_def hold1_def store_failed_def)

section \<open>The read endpoints do not reveal the requester's contact\<close>

lemma map_of_scrub:
  assumes "list_all2 (\<lambda>a b. fst a = fst b \<and> g (snd a) = g (snd b)) hs1 hs2"
  shows "map_option g (map_of hs1 k) = map_option g (map_of hs2 k)"
  using assms by (induction rule: list_all2_induct) auto

lemma item_scrub:
  "status_item f now (h\<lparr>fanPhone := None, fanEmail := None\<rparr>) = status_item f now h"
  "holds_item f now (h\<lparr>fanPhone := None, fanEmail := None\<rparr>) = holds_item f now h"
  by (simp_all add: status_item_def holds_item_def)

lemma active_scrub:
  assumes "list_all2 (\<lambda>a b. fst a = fst b \<and> g (snd a) = g (snd b)) hs1 hs2"
    and "\<And>h. status (g h) = status h"
  shows "map g (getActiveHolds hs1) = map g (getActiveHolds hs2)"
  using assms(1)
proof (induction rule: list_all2_induct)
  case Nil
  then show ?case by (simp add: getActiveHolds_def getAllHolds_def)
next
  case (Cons a as b bs)
  then have "status (snd a) = status (snd b)" using assms(2) by metis
  with Cons show ?case by (simp add: getActiveHolds_def getAllHolds_def)
qed

text \<open>
  C10. Take two stores with the same reservations in the same order, equal in every field
  except possibly \<open>fanPhone\<close> and \<open>fanEmail\<close>. The status endpoint answers the same for every
  id, and the listing of active holds is the same; and in every snapshot either endpoint
  returns, \<open>fanPhone\<close> and \<open>fanEmail\<close> are undefined.
\<close>

theorem read_endpoints_hide_contact:
  assumes "list_all2 (\<lambda>a b. fst a = fst b \<and>
              (snd a)\<lparr>fanPhone := None, fanEmail := None\<rparr>
                = (snd b)\<lparr>fanPhone := None, fanEmail := None\<rparr>) hs1 hs2"
  shows "get_hold_status toFixed2 now hid hs1 = get_hold_status toFixed2 now hid hs2
       \<and> get_holds toFixed2 clock hs1 = get_holds toFixed2 clock hs2
       \<and> (\<forall>item. get_hold_status toFixed2 now hid hs1 = Ok200 item \<longrightarrow>
             fanPhone item = None \<and> fanEmail item = None)
       \<and> (\<forall>item \<in> set (fst (get_holds toFixed2 clock hs1)).
             fanPhone item = None \<and> fanEmail item = None)"
proof -
  let ?g = "\<lambda>h::HoldState. h\<lparr>fanPhone := None, fanEmail := None\<rparr>"
  have m: "map_option ?g (map_of hs1 hid) = map_option ?g (map_of hs2 hid)"
    using map_of_scrub [where g = ?g, OF assms] .
  have a: "get_hold_status toFixed2 now hid hs =
     (case map_option ?g (map_of hs hid) of
        None \<Rightarrow> NotFound404 | Some h \<Rightarrow> Ok200 (status_item toFixed2 now h))" for hs
    by (simp add: get_hold_status_def getHoldState_def item_scrub split: option.splits)
  have 1: "get_hold_status toFixed2 now hid hs1 = get_hold_status toFixed2 now hid hs2"
    by (simp only: a m)
  have act: "map ?g (getActiveHolds hs1) = map ?g (getActiveHolds hs2)"
    by (rule active_scrub [OF assms]) simp
  have b: "fst (get_holds toFixed2 clock hs) =
      map (\<lambda>(i, h). holds_item toFixed2 (clock i) h) (enumerate 0 (map ?g (getActiveHolds hs)))" for hs
    by (simp add: get_holds_def Let_def enumerate_eq_zip zip_map2 item_scrub split_def o_def)
  have c: "snd (get_holds toFixed2 clock hs) = length (fst (get_holds toFixed2 clock hs))" for hs
    by (simp add: get_holds_def Let_def)
  have 2: "get_holds toFixed2 clock hs1 = get_holds toFixed2 clock hs2"
    by (rule prod_eqI) (simp_all only: b c act)
  have 3: "\<forall>item. get_hold_status toFixed2 now hid hs1 = Ok200 item \<longrightarrow>
             fanPhone item = None \<and> fanEmail item = None"
    by (auto simp: get_hold_status_def status_item_def split: option.splits)
  have 4: "\<forall>item \<in> set (fst (get_holds toFixed2 clock hs1)).
             fanPhone item = None \<and> fanEmail item = None"
    by (auto simp: get_holds_def Let_def holds_item_def)
  from 1 2 3 4 show ?thesis by blast
qed

text \<open>
  The two-reservation store and a copy with other phones and an email: same status answer
  for the first reservation, same listing.
\<close>

theorem read_endpoints_hide_contact_witness:
  "get_hold_status cents_only 61000 ''hold-1'' store1
     = get_hold_status cents_only 61000 ''hold-1'' store1_other_contact
   \<and> get_holds cents_only (\<lambda>i. 61000) store1 = get_holds cents_only (\<lambda>i. 61000) store1_other_contact
   \<and> map fanPhone (fst (get_holds cents_only (\<lambda>i. 61000) store1_other_contact)) = [None]"
proof -
  have rel: "list_all2 (\<lambda>a b. fst a = fst b \<and>
              (snd a)\<lparr>fanPhone := None, fanEmail := None\<rparr>
                = (snd b)\<lparr>fanPhone := None, fanEmail := None\<rparr>) store1 store1_other_contact"
    by (simp add: store1_def store1_other_contact_def hold1_def hold2_def)
  have shown: "map fanPhone (fst (get_holds cents_only (\<lambda>i. 61000) store1_other_contact)) = [None]"
    by (simp add: get_holds_def getActiveHolds_def getAllHolds_def store1_other_contact_def
        hold1_def hold2_def holds_item_def Let_def enumerate_eq_zip)
  from read_endpoints_hide_contact [OF rel, of cents_only 61000 "''hold-1''" "\<lambda>i. 61000"] shown
  show ?thesis by blast
qed

section \<open>Facts about the cycling task\<close>


lemma step_Boundary:
  "pc c = Boundary \<Longrightarrow> runHoldCycle_step rate hid env (c, hs) =
     (case getHoldCommand hid hs of
        Some Drop \<Rightarrow>
          (c\<lparr>pc := Ended\<rparr>, snd (updateHoldState hid [U_status Dropped, U_command (Some Drop)] hs))
      | Some Buy \<Rightarrow>
          (c\<lparr>pc := Ended\<rparr>, snd (updateHoldState hid [U_status Buying, U_command (Some Buy)] hs))
      | None \<Rightarrow> (c\<lparr>pc := Renewing\<rparr>, hs))"
  by (simp add: runHoldCycle_step_def)


lemma step_Renewing_err:
  "pc c = Renewing \<Longrightarrow> cycle_result env = Some err \<Longrightarrow>
   runHoldCycle_step rate hid env (c, hs) =
     (c\<lparr>consecutiveErrors := consecutiveErrors c + 1,
        pc := (if consecutiveErrors c + 1 \<ge> MAX_RETRIES then Recovering else Pausing)\<rparr>, hs)"
  by (simp add: runHoldCycle_step_def Let_def)

lemma step_Pausing:
  "pc c = Pausing \<Longrightarrow> runHoldCycle_step rate hid env (c, hs) = (c\<lparr>pc := Boundary\<rparr>, hs)"
  by (simp add: runHoldCycle_step_def)

lemma step_Recovering:
  "pc c = Recovering \<Longrightarrow> runHoldCycle_step rate hid env (c, hs) =
     (if recovery_ok env then (c\<lparr>consecutiveErrors := 0, pc := Boundary\<rparr>, hs)
      else (c\<lparr>pc := Ended\<rparr>, snd (updateHoldState hid [U_status Error] hs)))"
  by (simp add: runHoldCycle_step_def)


lemma system_run_simps [simp]:
  "system_run rate hid s [] = s"
  "system_run rate hid s (e # evs) = system_run rate hid (system_step rate hid s e) evs"
  by (simp_all add: system_run_def)


















section \<open>A fatal error on a renewal attempt\<close>

text \<open>
  C1 as stated fails: with no earlier error, a renewal attempt that throws a fatal error
  leaves the reservation \<open>Active\<close>; the task counts one error and pauses before a retry.
\<close>

theorem fatal_error_keeps_active:
  "runHoldCycle_step 10 ''hold-1'' env_fatal (cycler_renewing, store1)
     = (\<lparr>l_cycleCount = 3, consecutiveErrors = 1, pc = Pausing\<rparr>, store1)
   \<and> stored_status ''hold-1''
        (runHoldCycle_step 10 ''hold-1'' env_fatal (cycler_renewing, store1)) = Some Active"
  by (simp add: runHoldCycle_step_def env_fatal_def stored_status_def getHoldState_def
      store1_def hold1_def MAX_RETRIES_def Let_def cycler_renewing_def)

text \<open>
  C1, amended. The loop does not tell a fatal error from any other: a renewal attempt that
  fails with a fatal error increments the consecutive-error count and leaves the store as it
  is, exactly as a transient error does. While the count stays below 3 the task pauses and
  returns to the cycle boundary; when the count reaches 3 it attempts session recovery, and
  the reservation becomes Failed only if that recovery throws.
\<close>

theorem fatal_error_counts_as_any_error:
  assumes "pc c = Renewing" and "cycle_result env = Some FatalAutomationError"
  shows "runHoldCycle_step rate hid env (c, hs) =
           (c\<lparr>consecutiveErrors := consecutiveErrors c + 1,
              pc := (if consecutiveErrors c + 1 \<ge> 3 then Recovering else Pausing)\<rparr>, hs)
       \<and> runHoldCycle_step rate hid env (c, hs) =
           runHoldCycle_step rate hid (env\<lparr>cycle_result := Some TransientAutomationError\<rparr>) (c, hs)
       \<and> runHoldCycle_step rate hid env2 (runHoldCycle_step rate hid env (c, hs)) =
            (if consecutiveErrors c + 1 < 3
             then (c\<lparr>consecutiveErrors := consecutiveErrors c + 1, pc := Boundary\<rparr>, hs)
             else if recovery_ok env2
             then (c\<lparr>consecutiveErrors := 0, pc := Boundary\<rparr>, hs)
             else (c\<lparr>consecutiveErrors := consecutiveErrors c + 1, pc := Ended\<rparr>,
                   snd (updateHoldState hid [U_status Error] hs)))"
  using assms
  by (simp add: step_Renewing_err step_Pausing step_Recovering MAX_RETRIES_def)

text \<open>
  A fatal error as the third consecutive error, followed by a recovery that throws: only then
  is the stored status Failed.
\<close>

theorem fatal_error_counts_as_any_error_witness:
  "pc (cycler_renewing\<lparr>consecutiveErrors := 2\<rparr>) = Renewing
   \<and> cycle_result env_fatal = Some FatalAutomationError
   \<and> fst (runHoldCycle_step 10 ''hold-1'' env_fatal (cycler_renewing\<lparr>consecutiveErrors := 2\<rparr>, store1))
       = \<lparr>l_cycleCount = 3, consecutiveErrors = 3, pc = Recovering\<rparr>
   \<and> stored_status ''hold-1''
        (runHoldCycle_step 10 ''hold-1'' env_recovery_fails
           (runHoldCycle_step 10 ''hold-1'' env_fatal
              (cycler_renewing\<lparr>consecutiveErrors := 2\<rparr>, store1))) = Some Error"
  using fatal_error_counts_as_any_error
          [of "cycler_renewing\<lparr>consecutiveErrors := 2\<rparr>" env_fatal 10 "''hold-1''" store1
              env_recovery_fails]
  by (simp add: cycler_renewing_def env_fatal_def env_recovery_fails_def env_ok_def
      runHoldCycle_step_def MAX_RETRIES_def stored_status_def getHoldState_def
      updateHoldState_def store1_def Let_def)

section \<open>Transient errors: retry, then one recovery\<close>

text \<open>
  C4. A renewal attempt that fails with a transient error increments the consecutive-error
  count and changes nothing else. While the count is below 3 the task pauses and comes back
  to the cycle boundary with the store and the cycle counter as they were, and with no
  command pending it starts the same cycle again. When the count reaches 3 the task makes
  one recovery attempt: if it succeeds the count is reset to 0, the store is untouched (the
  reservation stays Active) and with no command pending cycling goes on; if it throws, the
  task ends and the stored status is Failed. From a count of 0 and with no command pending,
  the first two errors lead back to a retry and the third one to the recovery attempt.
\<close>

theorem transient_error_retry_then_recovery:
  assumes "pc c = Renewing" and "cycle_result env = Some TransientAutomationError"
  shows "runHoldCycle_step rate hid env (c, hs)
           = (c\<lparr>consecutiveErrors := consecutiveErrors c + 1,
                pc := (if consecutiveErrors c + 1 < 3 then Pausing else Recovering)\<rparr>, hs)
       \<and> (consecutiveErrors c + 1 < 3 \<longrightarrow>
            runHoldCycle_step rate hid env2 (runHoldCycle_step rate hid env (c, hs))
              = (c\<lparr>consecutiveErrors := consecutiveErrors c + 1, pc := Boundary\<rparr>, hs)
          \<and> (getHoldCommand hid hs = None \<longrightarrow>
                runHoldCycle_step rate hid env3
                  (runHoldCycle_step rate hid env2 (runHoldCycle_step rate hid env (c, hs)))
                  = (c\<lparr>consecutiveErrors := consecutiveErrors c + 1, pc := Renewing\<rparr>, hs)))
       \<and> (consecutiveErrors c + 1 \<ge> 3 \<longrightarrow>
            runHoldCycle_step rate hid env2 (runHoldCycle_step rate hid env (c, hs))
              = (if recovery_ok env2
                 then (c\<lparr>consecutiveErrors := 0, pc := Boundary\<rparr>, hs)
                 else (c\<lparr>consecutiveErrors := consecutiveErrors c + 1, pc := Ended\<rparr>,
                       snd (updateHoldState hid [U_status Error] hs)))
          \<and> (recovery_ok env2 \<and> getHoldCommand hid hs = None \<longrightarrow>
                runHoldCycle_step rate hid env3
                  (runHoldCycle_step rate hid env2 (runHoldCycle_step rate hid env (c, hs)))
                  = (c\<lparr>consecutiveErrors := 0, pc := Renewing\<rparr>, hs))
          \<and> (\<not> recovery_ok env2 \<and> getHoldState hid hs \<noteq> None \<longrightarrow>
                stored_status hid
                  (runHoldCycle_step rate hid env2 (runHoldCycle_step rate hid env (c, hs)))
                  = Some Error))
       \<and> (consecutiveErrors c = 0 \<and> getHoldCommand hid hs = None
            \<and> cycle_result e2 \<noteq> None \<and> cycle_result e3 \<noteq> None \<longrightarrow>
            system_run rate hid (c, hs)
              [Cycle env, Cycle p1, Cycle b1, Cycle e2, Cycle p2, Cycle b2]
              = (c\<lparr>consecutiveErrors := 2, pc := Renewing\<rparr>, hs)
          \<and> system_run rate hid (c, hs)
              [Cycle env, Cycle p1, Cycle b1, Cycle e2, Cycle p2, Cycle b2, Cycle e3]
              = (c\<lparr>consecutiveErrors := 3, pc := Recovering\<rparr>, hs))"
  using assms
  by (auto simp: step_Renewing_err step_Pausing step_Recovering step_Boundary MAX_RETRIES_def
      stored_status_def getHoldState_updateHoldState)

text \<open>
  The first error of a reservation is retried; the third one goes to recovery, and a recovery
  that throws makes the reservation Failed.
\<close>

theorem transient_error_retry_then_recovery_witness:
  "pc cycler_renewing = Renewing
   \<and> cycle_result env_transient = Some TransientAutomationError
   \<and> runHoldCycle_step 10 ''hold-1'' env_transient (cycler_renewing, store1)
       = (\<lparr>l_cycleCount = 3, consecutiveErrors = 1, pc = Pausing\<rparr>, store1)
   \<and> runHoldCycle_step 10 ''hold-1'' env_ok
        (runHoldCycle_step 10 ''hold-1'' env_transient (cycler_renewing, store1))
       = (\<lparr>l_cycleCount = 3, consecutiveErrors = 1, pc = Boundary\<rparr>, store1)
   \<and> system_run 10 ''hold-1'' (cycler_renewing, store1)
        [Cycle env_transient, Cycle env_ok, Cycle env_ok, Cycle env_transient, Cycle env_ok,
         Cycle env_ok, Cycle env_transient]
       = (\<lparr>l_cycleCount = 3, consecutiveErrors = 3, pc = Recovering\<rparr>, store1)"
  using transient_error_retry_then_recovery
          [of cycler_renewing env_transient 10 "''hold-1''" store1 env_ok env_ok
              env_transient env_transient env_ok env_ok env_ok env_ok]
  by (simp add: cycler_renewing_def env_transient_def env_fatal_def env_ok_def
      runHoldCycle_step_def MAX_RETRIES_def getHoldCommand_def getHoldState_def store1_def
      hold1_def Let_def)

section \<open>A pending release stops the cycling\<close>




section \<open>Cycle counter and accrued fee\<close>




section \<open>Facts about the ingestion tick\<close>

lemma tick_message_seen:
  "rowid msg \<le> lastSeenRowId s \<Longrightarrow> tick_message kyd now s (msg, env) = (s, [])"
  by (simp add: tick_message_def)

lemma tick_message_mark:
  "lastSeenRowId (fst (tick_message kyd now s (msg, env))) = max (lastSeenRowId s) (rowid msg)"
  by (simp add: tick_message_def Let_def)

lemma tick_message_cases:
  "tick_message kyd now s (msg, env) =
     (if rowid msg \<le> lastSeenRowId s then (s, [])
      else if \<not> eligible kyd msg \<or> Map_has (sentTexts s) (msg_text msg)
              \<or> now - last_processed s (sender msg) < COOLDOWN_MS
      then (s\<lparr>lastSeenRowId := rowid msg\<rparr>, [])
      else if send_ok env
      then (s\<lparr>lastSeenRowId := rowid msg,
              sentTexts := Map_set (reply_of env) (sent_now env) (sentTexts s),
              phoneCooldowns := Map_set (normalizePhone (sender msg)) (cooldown_now env)
                                  (phoneCooldowns s)\<rparr>,
            [Routed (sender msg) (msg_text msg), Replied (sender msg) (reply_of env)])
      else (s\<lparr>lastSeenRowId := rowid msg\<rparr>, [Routed (sender msg) (msg_text msg)]))"
  by (simp add: tick_message_def Let_def eligible_def last_processed_def reply_of_def max_def)

lemma tick_messages_seen:
  "list_all (\<lambda>m. rowid (fst m) \<le> lastSeenRowId s) ms \<Longrightarrow> tick_messages kyd now s ms = (s, [])"
proof (induction ms)
  case Nil
  then show ?case by simp
next
  case (Cons m ms)
  obtain msg env where m: "m = (msg, env)" by (cases m)
  with Cons show ?case by (simp add: tick_message_seen)
qed

lemma tick_messages_mark_mono:
  "lastSeenRowId s \<le> lastSeenRowId (fst (tick_messages kyd now s ms))"
proof (induction ms arbitrary: s)
  case Nil
  then show ?case by simp
next
  case (Cons m ms)
  obtain msg env where m: "m = (msg, env)" by (cases m)
  have "lastSeenRowId s \<le> lastSeenRowId (fst (tick_message kyd now s (msg, env)))"
    by (simp add: tick_message_mark)
  also have "\<dots> \<le> lastSeenRowId (fst (tick_messages kyd now (fst (tick_message kyd now s (msg, env))) ms))"
    by (rule Cons.IH)
  finally show ?case using m by (simp add: split_def Let_def)
qed

lemma tick_messages_all_seen:
  "list_all (\<lambda>m. rowid (fst m) \<le> lastSeenRowId (fst (tick_messages kyd now s ms))) ms"
proof (induction ms arbitrary: s)
  case Nil
  then show ?case by simp
next
  case (Cons m ms)
  obtain msg env where m: "m = (msg, env)" by (cases m)
  let ?s1 = "fst (tick_message kyd now s (msg, env))"
  have "rowid msg \<le> lastSeenRowId ?s1" by (simp add: tick_message_mark)
  also have "\<dots> \<le> lastSeenRowId (fst (tick_messages kyd now ?s1 ms))"
    by (rule tick_messages_mark_mono)
  finally have hd: "rowid msg \<le> lastSeenRowId (fst (tick_messages kyd now ?s1 ms))" .
  from hd Cons.IH [of ?s1] m show ?case by (simp add: split_def Let_def)
qed

lemma Map_has_filter: "Map_has (filter P m) k \<Longrightarrow> Map_has m k"
  by (induction m) (auto simp: Map_has_def split: if_splits)

lemma Map_has_Map_set: "Map_has (Map_set k v m) k' = (k' = k \<or> Map_has m k')"
  by (simp add: Map_has_def map_of_Map_set)

lemma prune_fields [simp]:
  "lastSeenRowId (prune_sentTexts now s) = lastSeenRowId s"
  "phoneCooldowns (prune_sentTexts now s) = phoneCooldowns s"
  "last_processed (prune_sentTexts now s) phone = last_processed s phone"
  by (simp_all add: prune_sentTexts_def last_processed_def)

lemma prune_has: "Map_has (sentTexts (prune_sentTexts now s)) k \<Longrightarrow> Map_has (sentTexts s) k"
  by (simp add: prune_sentTexts_def Map_has_filter)

lemma tick_message_discard:
  "\<not> eligible kyd msg \<or> Map_has (sentTexts s) (msg_text msg)
     \<or> now - last_processed s (sender msg) < COOLDOWN_MS \<Longrightarrow>
   tick_message kyd now s (msg, env)
     = (s\<lparr>lastSeenRowId := max (lastSeenRowId s) (rowid msg)\<rparr>, [])"
  by (auto simp: tick_message_cases max_def)

lemma tick_message_accept:
  "lastSeenRowId s < rowid msg \<Longrightarrow> eligible kyd msg \<Longrightarrow> \<not> Map_has (sentTexts s) (msg_text msg) \<Longrightarrow>
   COOLDOWN_MS \<le> now - last_processed s (sender msg) \<Longrightarrow>
   tick_message kyd now s (msg, env) =
     (if send_ok env
      then (s\<lparr>lastSeenRowId := rowid msg,
              sentTexts := Map_set (reply_of env) (sent_now env) (sentTexts s),
              phoneCooldowns := Map_set (normalizePhone (sender msg)) (cooldown_now env)
                                  (phoneCooldowns s)\<rparr>,
            [Routed (sender msg) (msg_text msg), Replied (sender msg) (reply_of env)])
      else (s\<lparr>lastSeenRowId := rowid msg\<rparr>, [Routed (sender msg) (msg_text msg)]))"
  by (simp add: tick_message_cases)

lemma cooldown_general:
  "(now - last_processed s (sender msg) < COOLDOWN_MS \<longrightarrow>
       snd (tick_message kyd now s (msg, env)) = []
     \<and> phoneCooldowns (fst (tick_message kyd now s (msg, env))) = phoneCooldowns s
     \<and> sentTexts (fst (tick_message kyd now s (msg, env))) = sentTexts s)
   \<and> (snd (tick_message kyd now s (msg, env)) = [] \<longrightarrow>
       phoneCooldowns (fst (tick_message kyd now s (msg, env))) = phoneCooldowns s)
   \<and> (phoneCooldowns (fst (tick_message kyd now s (msg, env))) \<noteq> phoneCooldowns s \<longrightarrow>
       send_ok env
     \<and> snd (tick_message kyd now s (msg, env))
         = [Routed (sender msg) (msg_text msg), Replied (sender msg) (reply_of env)]
     \<and> phoneCooldowns (fst (tick_message kyd now s (msg, env)))
         = Map_set (normalizePhone (sender msg)) (cooldown_now env) (phoneCooldowns s))"
  by (simp add: tick_message_cases)

section \<open>The high-water mark\<close>

text \<open>
  C5. A message whose id is not above the high-water mark is a no-op: the state is returned
  as it is and nothing is routed or sent. For every message, whatever the filters then decide,
  the mark after the message is the maximum of the mark before and the message's id.
  Hence a message delivered again after it was processed, at any later time and whatever the
  outside would answer, is a no-op (id 42 after the mark reached 42); a batch of messages
  that are all at or below the mark is a no-op; and a tick that polls the same messages again
  routes nothing and changes nothing but the pruning of expired echo entries.
\<close>

theorem seen_message_is_noop:
  "(rowid msg \<le> lastSeenRowId s \<longrightarrow> tick_message kyd now s (msg, env) = (s, []))
   \<and> lastSeenRowId (fst (tick_message kyd now s (msg, env))) = max (lastSeenRowId s) (rowid msg)
   \<and> tick_message kyd now' (fst (tick_message kyd now s (msg, env))) (msg, env')
       = (fst (tick_message kyd now s (msg, env)), [])
   \<and> (list_all (\<lambda>m. rowid (fst m) \<le> lastSeenRowId s) ms \<longrightarrow> tick_messages kyd now s ms = (s, []))
   \<and> (map fst ms' = map fst ms \<longrightarrow>
        tick kyd now' (Some ms') (fst (tick kyd now (Some ms) s))
          = (prune_sentTexts now' (fst (tick kyd now (Some ms) s)), []))"
proof -
  have again: "tick_message kyd now' (fst (tick_message kyd now s (msg, env))) (msg, env')
       = (fst (tick_message kyd now s (msg, env)), [])"
    by (rule tick_message_seen) (simp add: tick_message_mark)
  have repoll: "map fst ms' = map fst ms \<longrightarrow>
        tick kyd now' (Some ms') (fst (tick kyd now (Some ms) s))
          = (prune_sentTexts now' (fst (tick kyd now (Some ms) s)), [])"
  proof
    assume same: "map fst ms' = map fst ms"
    let ?s1 = "fst (tick_messages kyd now (prune_sentTexts now s) ms)"
    have "list_all (\<lambda>m. rowid (fst m) \<le> lastSeenRowId ?s1) ms"
      by (rule tick_messages_all_seen)
    then have "list_all (\<lambda>x. rowid x \<le> lastSeenRowId ?s1) (map fst ms)"
      by (simp add: list_all_iff)
    with same have "list_all (\<lambda>x. rowid x \<le> lastSeenRowId ?s1) (map fst ms')"
      by simp
    then have "list_all (\<lambda>m. rowid (fst m) \<le> lastSeenRowId (prune_sentTexts now' ?s1)) ms'"
      by (simp add: list_all_iff prune_sentTexts_def)
    then have "tick_messages kyd now' (prune_sentTexts now' ?s1) ms' = (prune_sentTexts now' ?s1, [])"
      by (rule tick_messages_seen)
    then show "tick kyd now' (Some ms') (fst (tick kyd now (Some ms) s))
          = (prune_sentTexts now' (fst (tick kyd now (Some ms) s)), [])"
      by (simp add: tick_def)
  qed
  from again repoll show ?thesis
    by (simp add: tick_message_seen tick_message_mark tick_messages_seen)
qed

text \<open>Mark 41, message 42 is processed and routed; delivered again three seconds later it is a no-op.\<close>

theorem seen_message_is_noop_witness:
  "tick_message ''22395'' 1700000000000 ingest41 (msg42, env_reply)
     = (\<lparr> lastSeenRowId = 42, sentTexts = [(''QUORUM: ok'', 1700000000300)],
          phoneCooldowns = [(''5551234567'', 1700000000300)] \<rparr>,
        [Routed ''+15551234567'' ''hold 2 florist'', Replied ''+15551234567'' ''QUORUM: ok''])
   \<and> tick_message ''22395'' 1700000003000
        (fst (tick_message ''22395'' 1700000000000 ingest41 (msg42, env_reply))) (msg42, env_reply)
     = (\<lparr> lastSeenRowId = 42, sentTexts = [(''QUORUM: ok'', 1700000000300)],
          phoneCooldowns = [(''5551234567'', 1700000000300)] \<rparr>, [])"
proof -
  have first: "tick_message ''22395'' 1700000000000 ingest41 (msg42, env_reply)
     = (\<lparr> lastSeenRowId = 42, sentTexts = [(''QUORUM: ok'', 1700000000300)],
          phoneCooldowns = [(''5551234567'', 1700000000300)] \<rparr>,
        [Routed ''+15551234567'' ''hold 2 florist'', Replied ''+15551234567'' ''QUORUM: ok''])"
    by code_simp
  from seen_message_is_noop
         [of msg42 ingest41 "''22395''" 1700000000000 env_reply 1700000003000 env_reply "[]" "[]"]
  show ?thesis unfolding first by simp
qed

section \<open>The per-sender cooldown\<close>

text \<open>
  C6 as stated fails: the first message is polled by the tick at \<open>T\<close> and its reply is
  sent 1.5 seconds later, which is the time the cooldown records. The messages polled by the
  ticks at \<open>T + 5 s\<close> and at \<open>T + 11 s\<close> are both discarded: at \<open>T + 11 s\<close> only 9.5
  seconds have passed since the recorded time.
\<close>

theorem third_message_discarded_after_slow_reply:
  "snd (tick ''22395'' 1700000000000 (Some [(msg42, env_slow_reply)]) ingest41)
     = [Routed ''+15551234567'' ''hold 2 florist'', Replied ''+15551234567'' ''QUORUM: ok'']
   \<and> snd (tick ''22395'' 1700000005000 (Some [(msg42, env_reply), (msg43, env_reply)])
            (fst (tick ''22395'' 1700000000000 (Some [(msg42, env_slow_reply)]) ingest41))) = []
   \<and> snd (tick ''22395'' 1700000011000
            (Some [(msg42, env_reply), (msg43, env_reply), (msg44, env_reply)])
            (fst (tick ''22395'' 1700000005000 (Some [(msg42, env_reply), (msg43, env_reply)])
                   (fst (tick ''22395'' 1700000000000 (Some [(msg42, env_slow_reply)]) ingest41)))))
     = []"
  by code_simp

text \<open>
  C6, amended. A message polled by a tick whose clock reading is less than 10 seconds after
  the sender's recorded cooldown timestamp is discarded: nothing is routed or sent, and
  neither the cooldown map nor the echo map changes. The cooldown map never changes on a
  discard; when it changes, the message was routed to the agent and a reply was sent, and
  the entry written is the sender's normalised phone with the clock reading after that send;
  what the agent answered, or that it threw and the fallback reply was sent, makes no
  difference to the cooldown map. Scenario: three eligible messages of one sender with
  increasing ids, none an echo, polled by ticks at \<open>T\<close>, \<open>T + 5 s\<close> and \<open>T + 11 s\<close>,
  each tick polling all messages so far; the sender is outside any earlier cooldown at
  \<open>T\<close>, and the first reply is sent, at \<open>T\<close> or later. Then the first tick routes the
  first message and the second tick routes nothing; the third tick routes the third message
  if the first reply's timestamp is at most \<open>T + 1 s\<close>, and discards it otherwise.
\<close>

theorem cooldown_discards_and_records_on_success:
  assumes el: "eligible kyd m1" "eligible kyd m2" "eligible kyd m3"
    and same: "sender m2 = sender m1" "sender m3 = sender m1"
    and ids: "lastSeenRowId s0 < rowid m1" "rowid m1 < rowid m2" "rowid m2 < rowid m3"
    and fresh: "\<not> Map_has (sentTexts s0) (msg_text m1)" "\<not> Map_has (sentTexts s0) (msg_text m3)"
               "msg_text m3 \<noteq> reply_of e1"
    and cool: "COOLDOWN_MS \<le> T - last_processed s0 (sender m1)"
    and sent: "send_ok e1" "T \<le> cooldown_now e1"
    and s1: "s1 = fst (tick kyd T (Some [(m1, e1)]) s0)"
    and s2: "s2 = fst (tick kyd (T + 5000) (Some [(m1, e1'), (m2, e2)]) s1)"
  shows "(now - last_processed s (sender msg) < COOLDOWN_MS \<longrightarrow>
            snd (tick_message kyd now s (msg, env)) = []
          \<and> phoneCooldowns (fst (tick_message kyd now s (msg, env))) = phoneCooldowns s
          \<and> sentTexts (fst (tick_message kyd now s (msg, env))) = sentTexts s)
       \<and> (snd (tick_message kyd now s (msg, env)) = [] \<longrightarrow>
            phoneCooldowns (fst (tick_message kyd now s (msg, env))) = phoneCooldowns s)
       \<and> (phoneCooldowns (fst (tick_message kyd now s (msg, env))) \<noteq> phoneCooldowns s \<longrightarrow>
            send_ok env
          \<and> snd (tick_message kyd now s (msg, env))
              = [Routed (sender msg) (msg_text msg), Replied (sender msg) (reply_of env)]
          \<and> phoneCooldowns (fst (tick_message kyd now s (msg, env)))
              = Map_set (normalizePhone (sender msg)) (cooldown_now env) (phoneCooldowns s))
       \<and> phoneCooldowns (fst (tick_message kyd now s (msg, env\<lparr>agent_reply := answer\<rparr>)))
           = phoneCooldowns (fst (tick_message kyd now s (msg, env)))
       \<and> snd (tick kyd T (Some [(m1, e1)]) s0)
           = [Routed (sender m1) (msg_text m1), Replied (sender m1) (reply_of e1)]
       \<and> snd (tick kyd (T + 5000) (Some [(m1, e1'), (m2, e2)]) s1) = []
       \<and> snd (tick kyd (T + 11000) (Some [(m1, e1''), (m2, e2'), (m3, e3)]) s2)
           = (if cooldown_now e1 \<le> T + 1000
              then Routed (sender m1) (msg_text m3)
                   # (if send_ok e3 then [Replied (sender m1) (reply_of e3)] else [])
              else [])"
proof -
  let ?p0 = "prune_sentTexts T s0"
  have f1: "\<not> Map_has (sentTexts ?p0) (msg_text m1)"
    using fresh(1) prune_has by blast
  have t1: "tick_message kyd T ?p0 (m1, e1) =
      (?p0\<lparr>lastSeenRowId := rowid m1,
              sentTexts := Map_set (reply_of e1) (sent_now e1) (sentTexts ?p0),
              phoneCooldowns := Map_set (normalizePhone (sender m1)) (cooldown_now e1)
                                  (phoneCooldowns s0)\<rparr>,
       [Routed (sender m1) (msg_text m1), Replied (sender m1) (reply_of e1)])"
    using tick_message_accept [of ?p0 m1 kyd T e1] ids(1) el(1) f1 cool sent(1) by simp
  have tick1: "tick kyd T (Some [(m1, e1)]) s0 =
      (?p0\<lparr>lastSeenRowId := rowid m1,
              sentTexts := Map_set (reply_of e1) (sent_now e1) (sentTexts ?p0),
              phoneCooldowns := Map_set (normalizePhone (sender m1)) (cooldown_now e1)
                                  (phoneCooldowns s0)\<rparr>,
       [Routed (sender m1) (msg_text m1), Replied (sender m1) (reply_of e1)])"
    by (simp add: tick_def t1)
  have s1_mark: "lastSeenRowId s1 = rowid m1"
    and s1_cool: "phoneCooldowns s1
        = Map_set (normalizePhone (sender m1)) (cooldown_now e1) (phoneCooldowns s0)"
    and s1_sent: "sentTexts s1 = Map_set (reply_of e1) (sent_now e1) (sentTexts ?p0)"
    by (simp_all add: s1 tick1)
  have lp1: "last_processed s1 (sender m1) = cooldown_now e1"
    by (simp add: last_processed_def s1_cool map_of_Map_set)
  let ?p1 = "prune_sentTexts (T + 5000) s1"
  have t2a: "tick_message kyd (T + 5000) ?p1 (m1, e1') = (?p1, [])"
    by (rule tick_message_seen) (simp add: s1_mark)
  have "T + 5000 - last_processed ?p1 (sender m2) < COOLDOWN_MS"
    using sent(2) by (simp add: same(1) lp1 COOLDOWN_MS_def)
  then have t2b: "tick_message kyd (T + 5000) ?p1 (m2, e2)
      = (?p1\<lparr>lastSeenRowId := max (lastSeenRowId ?p1) (rowid m2)\<rparr>, [])"
    by (simp add: tick_message_discard)
  have tick2: "tick kyd (T + 5000) (Some [(m1, e1'), (m2, e2)]) s1
      = (?p1\<lparr>lastSeenRowId := rowid m2\<rparr>, [])"
    using ids(2) by (simp add: tick_def t2a t2b s1_mark max_def)
  have s2_eq: "s2 = ?p1\<lparr>lastSeenRowId := rowid m2\<rparr>"
    by (simp add: s2 tick2)
  let ?p2 = "prune_sentTexts (T + 11000) s2"
  have p2_mark: "lastSeenRowId s2 = rowid m2" by (simp add: s2_eq)
  have lp2: "last_processed s2 (sender m1) = cooldown_now e1"
    using lp1 by (simp add: s2_eq last_processed_def)
  have "Map_has (sentTexts ?p2) (msg_text m3) \<Longrightarrow> False"
  proof -
    assume "Map_has (sentTexts ?p2) (msg_text m3)"
    then have "Map_has (sentTexts s2) (msg_text m3)" by (rule prune_has)
    then have "Map_has (sentTexts ?p1) (msg_text m3)" by (simp add: s2_eq)
    then have "Map_has (sentTexts s1) (msg_text m3)" by (rule prune_has)
    then have "Map_has (sentTexts ?p0) (msg_text m3)"
      using fresh(3) by (simp add: s1_sent Map_has_Map_set)
    then have "Map_has (sentTexts s0) (msg_text m3)" by (rule prune_has)
    with fresh(2) show False by simp
  qed
  then have f3: "\<not> Map_has (sentTexts ?p2) (msg_text m3)" by blast
  have t3a: "tick_message kyd (T + 11000) ?p2 (m1, e1'') = (?p2, [])"
    by (rule tick_message_seen) (use ids(2) in \<open>simp add: p2_mark\<close>)
  have t3b: "tick_message kyd (T + 11000) ?p2 (m2, e2') = (?p2, [])"
    by (rule tick_message_seen) (simp add: p2_mark)
  have t3c: "snd (tick_message kyd (T + 11000) ?p2 (m3, e3))
      = (if cooldown_now e1 \<le> T + 1000
         then Routed (sender m1) (msg_text m3)
              # (if send_ok e3 then [Replied (sender m1) (reply_of e3)] else [])
         else [])"
  proof (cases "cooldown_now e1 \<le> T + 1000")
    case True
    then have c3: "COOLDOWN_MS \<le> T + 11000 - last_processed ?p2 (sender m3)"
      by (simp add: same(2) lp2 COOLDOWN_MS_def)
    from tick_message_accept [of ?p2 m3 kyd "T + 11000" e3] ids(3) el(3) f3 c3 True
    show ?thesis by (simp add: p2_mark same(2))
  next
    case False
    then have "T + 11000 - last_processed ?p2 (sender m3) < COOLDOWN_MS"
      by (simp add: same(2) lp2 COOLDOWN_MS_def)
    then have "tick_message kyd (T + 11000) ?p2 (m3, e3)
        = (?p2\<lparr>lastSeenRowId := max (lastSeenRowId ?p2) (rowid m3)\<rparr>, [])"
      by (simp add: tick_message_discard)
    with False show ?thesis by simp
  qed
  have tick3: "snd (tick kyd (T + 11000) (Some [(m1, e1''), (m2, e2'), (m3, e3)]) s2)
      = (if cooldown_now e1 \<le> T + 1000
         then Routed (sender m1) (msg_text m3)
              # (if send_ok e3 then [Replied (sender m1) (reply_of e3)] else [])
         else [])"
    using t3c by (simp add: tick_def t3a t3b split_def)
  have any_answer: "phoneCooldowns (fst (tick_message kyd now s (msg, env\<lparr>agent_reply := answer\<rparr>)))
           = phoneCooldowns (fst (tick_message kyd now s (msg, env)))"
    by (simp add: tick_message_cases)
  from cooldown_general [of now s msg kyd env] any_answer tick1 tick2 tick3 show ?thesis
    by (simp only: fst_conv snd_conv) blast
qed

text \<open>
  Messages 42, 43 and 44 of one phone at \<open>T\<close>, \<open>T + 5 s\<close> and \<open>T + 11 s\<close>: with the
  first reply sent 300 ms after \<open>T\<close> the third message is routed, with the first reply sent
  1.5 s after \<open>T\<close> it is discarded.
\<close>

theorem cooldown_discards_and_records_on_success_witness:
  "snd (tick ''22395'' 1700000000000 (Some [(msg42, env_reply)]) ingest41)
     = [Routed ''+15551234567'' ''hold 2 florist'', Replied ''+15551234567'' ''QUORUM: ok'']
   \<and> snd (tick ''22395'' 1700000005000 (Some [(msg42, env_reply), (msg43, env_reply)])
            (fst (tick ''22395'' 1700000000000 (Some [(msg42, env_reply)]) ingest41))) = []
   \<and> snd (tick ''22395'' 1700000011000
            (Some [(msg42, env_reply), (msg43, env_reply), (msg44, env_reply)])
            (fst (tick ''22395'' 1700000005000 (Some [(msg42, env_reply), (msg43, env_reply)])
                   (fst (tick ''22395'' 1700000000000 (Some [(msg42, env_reply)]) ingest41)))))
     = [Routed ''+15551234567'' ''status'', Replied ''+15551234567'' ''QUORUM: ok'']
   \<and> snd (tick ''22395'' 1700000011000
            (Some [(msg42, env_reply), (msg43, env_reply), (msg44, env_reply)])
            (fst (tick ''22395'' 1700000005000 (Some [(msg42, env_reply), (msg43, env_reply)])
                   (fst (tick ''22395'' 1700000000000 (Some [(msg42, env_slow_reply)]) ingest41)))))
     = []"
proof -
  have elig: "eligible ''22395'' msg42" "eligible ''22395'' msg43" "eligible ''22395'' msg44"
    by code_simp+
  have sender: "sender msg43 = sender msg42" "sender msg44 = sender msg42"
    by (simp_all add: msg43_def msg44_def)
  have ids: "lastSeenRowId ingest41 < rowid msg42" "rowid msg42 < rowid msg43" "rowid msg43 < rowid msg44"
    by (simp_all add: ingest41_def msg42_def msg43_def msg44_def)
  have fresh: "\<not> Map_has (sentTexts ingest41) (msg_text msg42)"
    "\<not> Map_has (sentTexts ingest41) (msg_text msg44)" "msg_text msg44 \<noteq> reply_of env_reply"
    by (simp_all add: ingest41_def Map_has_def msg44_def msg42_def reply_of_def env_reply_def)
  have fresh_slow: "msg_text msg44 \<noteq> reply_of env_slow_reply"
    by (simp add: msg44_def msg42_def reply_of_def env_reply_def env_slow_reply_def)
  have cool: "COOLDOWN_MS \<le> 1700000000000 - last_processed ingest41 (sender msg42)"
    by (simp add: COOLDOWN_MS_def last_processed_def ingest41_def)
  have sent: "send_ok env_reply" "1700000000000 \<le> cooldown_now env_reply"
    by (simp_all add: env_reply_def)
  have sent_slow: "send_ok env_slow_reply" "1700000000000 \<le> cooldown_now env_slow_reply"
    by (simp_all add: env_reply_def env_slow_reply_def)
  have vals: "sender msg42 = ''+15551234567''" "msg_text msg42 = ''hold 2 florist''"
    "msg_text msg44 = ''status''" "reply_of env_reply = ''QUORUM: ok''"
    "send_ok env_reply = True" "cooldown_now env_reply = 1700000000300"
    "cooldown_now env_slow_reply = 1700000001500"
    by (simp_all add: msg42_def msg44_def reply_of_def env_reply_def env_slow_reply_def)
  from cooldown_discards_and_records_on_success
         [OF elig sender ids fresh cool sent refl refl,
          of 0 ingest41 msg42 env_reply None env_reply env_reply env_reply env_reply env_reply]
       cooldown_discards_and_records_on_success
         [OF elig sender ids fresh(1,2) fresh_slow cool sent_slow refl refl,
          of 0 ingest41 msg42 env_reply None env_reply env_reply env_reply env_reply env_reply]
  show ?thesis unfolding vals by simp
qed

end
